theory Spec2Isabelle
  imports Main "HOL-Library.Word"
begin

section \<open>Shortcut triggers of gtk/gtkshortcuttrigger.c\<close>

text \<open>
  The file implements reference-counted trigger objects of three classes (never, keyval,
  alternative) behind a table of virtual functions. The objects live in C memory and refer
  to each other through pointers, so the model keeps an explicit store from addresses to
  objects. Every function that reads or writes memory takes the store and, where it writes,
  returns the new one.
\<close>

subsection \<open>Scalar types and constants\<close>

type_synonym guint = "32 word"
type_synonym GdkModifierType = "32 word"

text \<open>
  \<open>gatomicrefcount\<close> is a C \<open>gint\<close>. The only arithmetic the file does on it is the
  decrement inside \<open>g_atomic_ref_count_dec\<close>, which GLib performs on positive counts only,
  so no operation of the model can leave the 32-bit range and the count is an \<open>int\<close>.
\<close>

type_synonym gatomicrefcount = int

type_synonym addr = nat

definition NULL :: addr where
  "NULL = 0"

text \<open>
  Modelled from the spec: the header gdkkeysyms.h, which defines \<open>GDK_KEY_ISO_Left_Tab\<close>
  and \<open>GDK_KEY_Tab\<close>, is not among the sources. The spec names them as the legacy
  left-tab code and the tab code; the values are those of the X11 key symbols of the same
  names. The theorems about arbitrary key values use no more of the two values than that
  they differ.
\<close>

definition GDK_KEY_ISO_Left_Tab :: guint where
  "GDK_KEY_ISO_Left_Tab = 0xfe20"

definition GDK_KEY_Tab :: guint where
  "GDK_KEY_Tab = 0xff09"

subsection \<open>Events\<close>

text \<open>
  Modelled from the spec: \<open>GdkEvent\<close> and its accessors \<open>gdk_event_get_event_type\<close>,
  \<open>gdk_event_get_modifier_state\<close> and \<open>gdk_key_event_get_keyval\<close> belong to GDK and are
  not among the sources. The spec describes the event as an abstraction providing the
  event-type classification (is this a key press?), the current modifier state and the key
  value; the record holds exactly these three.
\<close>

datatype GdkEventType =
  GDK_KEY_PRESS | GDK_KEY_RELEASE | GDK_BUTTON_PRESS | GDK_BUTTON_RELEASE | GDK_MOTION_NOTIFY

record GdkEvent =
  event_type :: GdkEventType
  modifier_state :: GdkModifierType
  event_keyval :: guint

definition gdk_event_get_event_type :: "GdkEvent \<Rightarrow> GdkEventType" where
  "gdk_event_get_event_type event = event_type event"

definition gdk_event_get_modifier_state :: "GdkEvent \<Rightarrow> GdkModifierType" where
  "gdk_event_get_modifier_state event = modifier_state event"

definition gdk_key_event_get_keyval :: "GdkEvent \<Rightarrow> guint" where
  "gdk_key_event_get_keyval event = event_keyval event"

subsection \<open>Objects and the store\<close>

text \<open>
  \<open>struct _GtkShortcutTrigger\<close> holds the class pointer and the reference count; the three
  concrete structs extend it. The class pointer of an object is one of three static class
  tables, so a constructor of \<open>trigger_obj\<close> stands for the class and carries the fields
  of the matching struct: \<open>GtkNeverTrigger\<close> has \<open>never\<close> and \<open>modifiers\<close>,
  \<open>GtkKeyvalTrigger\<close> has \<open>keyval\<close> and \<open>modifiers\<close>, \<open>GtkAlternativeTrigger\<close> has the
  pointers \<open>first\<close> and \<open>second\<close>.
\<close>

datatype GtkShortcutTriggerType =
  GTK_SHORTCUT_TRIGGER_NEVER | GTK_SHORTCUT_TRIGGER_KEYVAL | GTK_SHORTCUT_TRIGGER_ALTERNATIVE

datatype GtkShortcutTriggerClass =
  GTK_NEVER_TRIGGER_CLASS | GTK_KEYVAL_TRIGGER_CLASS | GTK_ALTERNATIVE_TRIGGER_CLASS

fun trigger_type :: "GtkShortcutTriggerClass \<Rightarrow> GtkShortcutTriggerType" where
  "trigger_type GTK_NEVER_TRIGGER_CLASS = GTK_SHORTCUT_TRIGGER_NEVER"
| "trigger_type GTK_KEYVAL_TRIGGER_CLASS = GTK_SHORTCUT_TRIGGER_KEYVAL"
| "trigger_type GTK_ALTERNATIVE_TRIGGER_CLASS = GTK_SHORTCUT_TRIGGER_ALTERNATIVE"

datatype trigger_obj =
  GtkNeverTrigger gatomicrefcount guint GdkModifierType
| GtkKeyvalTrigger gatomicrefcount guint GdkModifierType
| GtkAlternativeTrigger gatomicrefcount addr addr

fun trigger_class :: "trigger_obj \<Rightarrow> GtkShortcutTriggerClass" where
  "trigger_class (GtkNeverTrigger rc nv m) = GTK_NEVER_TRIGGER_CLASS"
| "trigger_class (GtkKeyvalTrigger rc k m) = GTK_KEYVAL_TRIGGER_CLASS"
| "trigger_class (GtkAlternativeTrigger rc a b) = GTK_ALTERNATIVE_TRIGGER_CLASS"

fun ref_count :: "trigger_obj \<Rightarrow> gatomicrefcount" where
  "ref_count (GtkNeverTrigger rc nv m) = rc"
| "ref_count (GtkKeyvalTrigger rc k m) = rc"
| "ref_count (GtkAlternativeTrigger rc a b) = rc"

fun set_ref_count :: "gatomicrefcount \<Rightarrow> trigger_obj \<Rightarrow> trigger_obj" where
  "set_ref_count rc' (GtkNeverTrigger rc nv m) = GtkNeverTrigger rc' nv m"
| "set_ref_count rc' (GtkKeyvalTrigger rc k m) = GtkKeyvalTrigger rc' k m"
| "set_ref_count rc' (GtkAlternativeTrigger rc a b) = GtkAlternativeTrigger rc' a b"

type_synonym heap = "addr \<rightharpoonup> trigger_obj"

text \<open>
  What a call can do instead of returning: read through a pointer to memory that holds no
  object (undefined behaviour in C), reach \<open>g_assert_not_reached\<close>, or exceed the bound on
  the depth of nested calls that the recursive functions of the model carry.
\<close>

datatype fault = Invalid_pointer | Assertion_failed | Out_of_fuel

text \<open>
  Modelled from the spec: the macro \<open>GTK_IS_SHORTCUT_TRIGGER\<close> is defined in
  gtkshortcuttrigger.h, which is not among the sources. The spec calls the rejected
  arguments invalid or null handles; the check is the null test.
\<close>

definition GTK_IS_SHORTCUT_TRIGGER :: "addr \<Rightarrow> bool" where
  "GTK_IS_SHORTCUT_TRIGGER trigger = (trigger \<noteq> NULL)"

text \<open>
  \<open>GTK_IS_SHORTCUT_TRIGGER_TYPE\<close> (line 46) tests the handle and then reads the class
  through it.
\<close>

definition GTK_IS_SHORTCUT_TRIGGER_TYPE ::
  "heap \<Rightarrow> addr \<Rightarrow> GtkShortcutTriggerType \<Rightarrow> fault + bool" where
  "GTK_IS_SHORTCUT_TRIGGER_TYPE h trigger type =
     (if \<not> GTK_IS_SHORTCUT_TRIGGER trigger then Inr False
      else case h trigger of
             None \<Rightarrow> Inl Invalid_pointer
           | Some obj \<Rightarrow> Inr (trigger_type (trigger_class obj) = type))"

subsection \<open>GLib primitives\<close>



subsection \<open>Construction\<close>

text \<open>
  \<open>gtk_shortcut_trigger_new\<close> (lines 86-99) fills a zeroed block of the size of the class
  with the class pointer and a count of one; the value here is the content of that block.
  The class tables are static objects, so the null test on \<open>trigger_class\<close> cannot fail
  and has no branch. Which address \<open>g_malloc0\<close> picks is not determined by the program:
  the public constructors take it as the argument \<open>mem\<close> and write the finished object
  there.
\<close>

fun g_malloc0 :: "GtkShortcutTriggerClass \<Rightarrow> trigger_obj" where
  "g_malloc0 GTK_NEVER_TRIGGER_CLASS = GtkNeverTrigger 0 0 0"
| "g_malloc0 GTK_KEYVAL_TRIGGER_CLASS = GtkKeyvalTrigger 0 0 0"
| "g_malloc0 GTK_ALTERNATIVE_TRIGGER_CLASS = GtkAlternativeTrigger 0 NULL NULL"

definition gtk_shortcut_trigger_new :: "GtkShortcutTriggerClass \<Rightarrow> trigger_obj" where
  "gtk_shortcut_trigger_new cls = set_ref_count 1 (g_malloc0 cls)"

text \<open>
  The static singleton \<open>never\<close> (line 258) with its count of one, and its getter.
\<close>

definition never :: addr where
  "never = 1"

definition static_heap :: heap where
  "static_heap = [never \<mapsto> GtkNeverTrigger 1 0 0]"

definition gtk_never_trigger_get :: addr where
  "gtk_never_trigger_get = never"

text \<open>
  The conditional of lines 355-358 of the constructor and lines 307-310 of the evaluator is
  the same; it is written once. \<open>gdk_keyval_to_lower\<close> belongs to GDK and is not among the
  sources: it is a parameter of every function that folds a key value.
\<close>

definition normalize_keyval :: "(guint \<Rightarrow> guint) \<Rightarrow> guint \<Rightarrow> guint" where
  "normalize_keyval gdk_keyval_to_lower keyval =
     (if keyval = GDK_KEY_ISO_Left_Tab then GDK_KEY_Tab else gdk_keyval_to_lower keyval)"

fun set_keyval :: "guint \<Rightarrow> trigger_obj \<Rightarrow> trigger_obj" where
  "set_keyval k' (GtkKeyvalTrigger rc k m) = GtkKeyvalTrigger rc k' m"
| "set_keyval k' obj = obj"

fun set_modifiers :: "GdkModifierType \<Rightarrow> trigger_obj \<Rightarrow> trigger_obj" where
  "set_modifiers m' (GtkKeyvalTrigger rc k m) = GtkKeyvalTrigger rc k m'"
| "set_modifiers m' obj = obj"

fun set_first :: "addr \<Rightarrow> trigger_obj \<Rightarrow> trigger_obj" where
  "set_first a' (GtkAlternativeTrigger rc a b) = GtkAlternativeTrigger rc a' b"
| "set_first a' obj = obj"

fun set_second :: "addr \<Rightarrow> trigger_obj \<Rightarrow> trigger_obj" where
  "set_second b' (GtkAlternativeTrigger rc a b) = GtkAlternativeTrigger rc a b'"
| "set_second b' obj = obj"

definition gtk_keyval_trigger_new ::
  "(guint \<Rightarrow> guint) \<Rightarrow> addr \<Rightarrow> heap \<Rightarrow> guint \<Rightarrow> GdkModifierType \<Rightarrow> addr \<times> heap" where
  "gtk_keyval_trigger_new gdk_keyval_to_lower mem h keyval modifiers =
     (let self = gtk_shortcut_trigger_new GTK_KEYVAL_TRIGGER_CLASS;
          self = set_keyval (normalize_keyval gdk_keyval_to_lower keyval) self;
          self = set_modifiers modifiers self
      in (mem, h(mem \<mapsto> self)))"

definition gtk_alternative_trigger_new ::
  "addr \<Rightarrow> heap \<Rightarrow> addr \<Rightarrow> addr \<Rightarrow> addr \<times> heap" where
  "gtk_alternative_trigger_new mem h first second =
     (if \<not> GTK_IS_SHORTCUT_TRIGGER first then (NULL, h)
      else if \<not> GTK_IS_SHORTCUT_TRIGGER second then (NULL, h)
      else let self = gtk_shortcut_trigger_new GTK_ALTERNATIVE_TRIGGER_CLASS;
               self = set_first first self;
               self = set_second second self
           in (mem, h(mem \<mapsto> self)))"

subsection \<open>Accessors of the keyval trigger\<close>

text \<open>
  Lines 373-381 and 392-400: the type check fails on a null handle and on an object of
  another class, and the function then returns 0.
\<close>

definition gtk_keyval_trigger_get_modifiers :: "heap \<Rightarrow> addr \<Rightarrow> fault + GdkModifierType" where
  "gtk_keyval_trigger_get_modifiers h self =
     (case GTK_IS_SHORTCUT_TRIGGER_TYPE h self GTK_SHORTCUT_TRIGGER_KEYVAL of
        Inl err \<Rightarrow> Inl err
      | Inr ok \<Rightarrow>
          if \<not> ok then Inr 0
          else case h self of
                 Some (GtkKeyvalTrigger rc keyval modifiers) \<Rightarrow> Inr modifiers
               | _ \<Rightarrow> Inl Invalid_pointer)"

definition gtk_keyval_trigger_get_keyval :: "heap \<Rightarrow> addr \<Rightarrow> fault + guint" where
  "gtk_keyval_trigger_get_keyval h self =
     (case GTK_IS_SHORTCUT_TRIGGER_TYPE h self GTK_SHORTCUT_TRIGGER_KEYVAL of
        Inl err \<Rightarrow> Inl err
      | Inr ok \<Rightarrow>
          if \<not> ok then Inr 0
          else case h self of
                 Some (GtkKeyvalTrigger rc keyval modifiers) \<Rightarrow> Inr keyval
               | _ \<Rightarrow> Inl Invalid_pointer)"

subsection \<open>Evaluation\<close>

text \<open>
  The class functions \<open>trigger\<close>. Each receives the object it was looked up on; the keyval
  evaluator reads the two stored fields of its struct.
\<close>

definition gtk_never_trigger_trigger :: "addr \<Rightarrow> GdkEvent \<Rightarrow> bool" where
  "gtk_never_trigger_trigger trigger event = False"

definition gtk_keyval_trigger_trigger ::
  "(guint \<Rightarrow> guint) \<Rightarrow> guint \<Rightarrow> GdkModifierType \<Rightarrow> GdkEvent \<Rightarrow> bool" where
  "gtk_keyval_trigger_trigger gdk_keyval_to_lower self_keyval self_modifiers event =
     (if gdk_event_get_event_type event \<noteq> GDK_KEY_PRESS then False
      else let modifiers = gdk_event_get_modifier_state event;
               keyval = gdk_key_event_get_keyval event;
               keyval = normalize_keyval gdk_keyval_to_lower keyval
           in keyval = self_keyval \<and> modifiers = self_modifiers)"

text \<open>
  \<open>gtk_shortcut_trigger_trigger\<close> (lines 164-171) dispatches on the class of the object;
  \<open>gtk_alternative_trigger_trigger\<close> (lines 423-436) calls it back on the two sub-triggers.
  The recursion follows pointers of the store, so the first argument bounds the depth of
  nested dispatches. Beside the result, a call returns the list of the objects whose class
  evaluator it invoked, in call order: the source has no such list, it records which
  evaluators ran.
\<close>

fun gtk_shortcut_trigger_trigger ::
  "(guint \<Rightarrow> guint) \<Rightarrow> nat \<Rightarrow> heap \<Rightarrow> addr \<Rightarrow> GdkEvent \<Rightarrow> fault + bool \<times> addr list"
and gtk_alternative_trigger_trigger ::
  "(guint \<Rightarrow> guint) \<Rightarrow> nat \<Rightarrow> heap \<Rightarrow> addr \<Rightarrow> addr \<Rightarrow> GdkEvent \<Rightarrow> fault + bool \<times> addr list"
where
  "gtk_shortcut_trigger_trigger gdk_keyval_to_lower 0 h self event = Inl Out_of_fuel"
| "gtk_shortcut_trigger_trigger gdk_keyval_to_lower (Suc n) h self event =
     (if \<not> GTK_IS_SHORTCUT_TRIGGER self then Inr (False, [])
      else case h self of
             None \<Rightarrow> Inl Invalid_pointer
           | Some (GtkNeverTrigger rc nv m) \<Rightarrow>
               Inr (gtk_never_trigger_trigger self event, [self])
           | Some (GtkKeyvalTrigger rc keyval modifiers) \<Rightarrow>
               Inr (gtk_keyval_trigger_trigger gdk_keyval_to_lower keyval modifiers event, [self])
           | Some (GtkAlternativeTrigger rc first second) \<Rightarrow>
               (case gtk_alternative_trigger_trigger gdk_keyval_to_lower n h first second event of
                  Inl err \<Rightarrow> Inl err
                | Inr (res, calls) \<Rightarrow> Inr (res, self # calls)))"
| "gtk_alternative_trigger_trigger gdk_keyval_to_lower n h first second event =
     (case gtk_shortcut_trigger_trigger gdk_keyval_to_lower n h first event of
        Inl err \<Rightarrow> Inl err
      | Inr (res1, calls1) \<Rightarrow>
          if res1 then Inr (True, calls1)
          else case gtk_shortcut_trigger_trigger gdk_keyval_to_lower n h second event of
                 Inl err \<Rightarrow> Inl err
               | Inr (res2, calls2) \<Rightarrow>
                   if res2 then Inr (True, calls1 @ calls2)
                   else Inr (False, calls1 @ calls2))"

subsection \<open>Releasing references\<close>




subsection \<open>Printing\<close>

text \<open>
  The \<open>GString\<close> a trigger is printed into is its text; \<open>None\<close> is the null pointer.
  \<open>gtk_accelerator_name\<close> lives in gtkaccelgroup.c, which is not among the sources, and
  is a parameter.
\<close>

definition gtk_never_trigger_print :: "string \<Rightarrow> string" where
  "gtk_never_trigger_print string = string @ ''<never>''"

definition gtk_keyval_trigger_print ::
  "(guint \<Rightarrow> GdkModifierType \<Rightarrow> string) \<Rightarrow> guint \<Rightarrow> GdkModifierType \<Rightarrow> string \<Rightarrow> string" where
  "gtk_keyval_trigger_print gtk_accelerator_name self_keyval self_modifiers string =
     (let accelerator_name = gtk_accelerator_name self_keyval self_modifiers
      in string @ accelerator_name)"

fun gtk_shortcut_trigger_print ::
  "(guint \<Rightarrow> GdkModifierType \<Rightarrow> string) \<Rightarrow> nat \<Rightarrow> heap \<Rightarrow> addr \<Rightarrow> string option
     \<Rightarrow> fault + string option"
and gtk_alternative_trigger_print ::
  "(guint \<Rightarrow> GdkModifierType \<Rightarrow> string) \<Rightarrow> nat \<Rightarrow> heap \<Rightarrow> addr \<Rightarrow> addr \<Rightarrow> string
     \<Rightarrow> fault + string option"
where
  "gtk_shortcut_trigger_print gtk_accelerator_name 0 h self string = Inl Out_of_fuel"
| "gtk_shortcut_trigger_print gtk_accelerator_name (Suc n) h self string =
     (if \<not> GTK_IS_SHORTCUT_TRIGGER self then Inr string
      else case string of
             None \<Rightarrow> Inr None
           | Some text \<Rightarrow>
               (case h self of
                  None \<Rightarrow> Inl Invalid_pointer
                | Some (GtkNeverTrigger rc nv m) \<Rightarrow>
                    Inr (Some (gtk_never_trigger_print text))
                | Some (GtkKeyvalTrigger rc keyval modifiers) \<Rightarrow>
                    Inr (Some (gtk_keyval_trigger_print gtk_accelerator_name keyval modifiers text))
                | Some (GtkAlternativeTrigger rc first second) \<Rightarrow>
                    gtk_alternative_trigger_print gtk_accelerator_name n h first second text))"
| "gtk_alternative_trigger_print gtk_accelerator_name n h first second text =
     (case gtk_shortcut_trigger_print gtk_accelerator_name n h first (Some text) of
        Inl err \<Rightarrow> Inl err
      | Inr None \<Rightarrow> Inr None
      | Inr (Some text1) \<Rightarrow>
          gtk_shortcut_trigger_print gtk_accelerator_name n h second (Some (text1 @ '', '')))"

text \<open>
  \<open>gtk_shortcut_trigger_to_string\<close> (lines 183-194) prints into a fresh empty string.
\<close>

definition gtk_shortcut_trigger_to_string ::
  "(guint \<Rightarrow> GdkModifierType \<Rightarrow> string) \<Rightarrow> nat \<Rightarrow> heap \<Rightarrow> addr \<Rightarrow> fault + string option" where
  "gtk_shortcut_trigger_to_string gtk_accelerator_name n h self =
     (if self = NULL then Inr None
      else gtk_shortcut_trigger_print gtk_accelerator_name n h self (Some []))"

subsection \<open>The external lowercase fold\<close>

text \<open>
  Modelled from the spec: \<open>gdk_keyval_to_lower\<close> belongs to GDK and is not among the
  sources. The spec describes it as the table that maps raw key codes to their canonical
  lowercase form, and names the left-tab remap as the one special case beside it. A fold to
  a canonical form leaves its own results alone; the tab key has no case; and the legacy
  left-tab code is not the lowercase form of any other key.
\<close>

definition canonical_lowercase_fold :: "(guint \<Rightarrow> guint) \<Rightarrow> bool" where
  "canonical_lowercase_fold f \<longleftrightarrow>
     (\<forall>k. f (f k) = f k) \<and> f GDK_KEY_Tab = GDK_KEY_Tab \<and>
     (\<forall>k. k \<noteq> GDK_KEY_ISO_Left_Tab \<longrightarrow> f k \<noteq> GDK_KEY_ISO_Left_Tab)"

text \<open>
  A fold and a formatter to run the functions at concrete inputs: the fold moves the ASCII
  capitals \<open>A\<close> to \<open>Z\<close> onto \<open>a\<close> to \<open>z\<close> and leaves every other code alone; the
  formatter prints the control mask (bit 2) and the key \<open>a\<close>.
\<close>

definition ascii_keyval_to_lower :: "guint \<Rightarrow> guint" where
  "ascii_keyval_to_lower symbol =
     (if 0x41 \<le> symbol \<and> symbol \<le> 0x5a then symbol + 0x20 else symbol)"

definition sample_accelerator_name :: "guint \<Rightarrow> GdkModifierType \<Rightarrow> string" where
  "sample_accelerator_name keyval modifiers =
     (if modifiers = 4 then ''<Control>'' else []) @ (if keyval = 0x61 then ''a'' else ''?'')"

text \<open>
  A store is ranked when every alternative in it points at two allocated objects of
  strictly lower rank: the stores the constructors build are of this kind, each new
  alternative taking a rank above those of its two arguments.
\<close>

definition ranked_store :: "heap \<Rightarrow> (addr \<Rightarrow> nat) \<Rightarrow> bool" where
  "ranked_store h rank \<longleftrightarrow>
     (\<forall>p rc a b. h p = Some (GtkAlternativeTrigger rc a b) \<longrightarrow>
        h a \<noteq> None \<and> rank a < rank p \<and> h b \<noteq> None \<and> rank b < rank p)"

text \<open>
  The bookkeeping of references. \<open>slots obj c\<close> is the number of pointer fields of
  \<open>obj\<close> that hold \<open>c\<close>, and \<open>inrefs h c\<close> the number of pointers to \<open>c\<close> from the
  objects of the store. The never singleton starts with a count of one that belongs to
  nobody (line 258): it is pinned.
\<close>

fun slots :: "trigger_obj \<Rightarrow> addr \<Rightarrow> nat" where
  "slots (GtkAlternativeTrigger rc first second) c =
     (if first = c then 1 else 0) + (if second = c then 1 else 0)"
| "slots (GtkNeverTrigger rc nv m) c = 0"
| "slots (GtkKeyvalTrigger rc keyval modifiers) c = 0"

definition inrefs :: "heap \<Rightarrow> addr \<Rightarrow> nat" where
  "inrefs h c = (\<Sum>p\<in>dom h. case h p of None \<Rightarrow> 0 | Some obj \<Rightarrow> slots obj c)"

fun pinned :: "trigger_obj \<Rightarrow> nat" where
  "pinned (GtkNeverTrigger rc nv m) = 1"
| "pinned (GtkKeyvalTrigger rc keyval modifiers) = 0"
| "pinned (GtkAlternativeTrigger rc first second) = 0"

text \<open>
  A store is counted, for a number \<open>ext c\<close> of references that callers hold on each
  object \<open>c\<close>, when it is finite and ranked, holds nothing at the null address, and the
  count of each object is the number of pointers to it from the store plus the references
  callers hold plus the pinned one. \<open>give_up ext a\<close> is the callers' holding after one
  reference on \<open>a\<close> has been handed to a release. \<open>counts_only h h'\<close> says that every
  object of \<open>h'\<close> is an object of \<open>h\<close> at the same address with at most the count
  changed.
\<close>

definition counted_store :: "heap \<Rightarrow> (addr \<Rightarrow> nat) \<Rightarrow> (addr \<Rightarrow> nat) \<Rightarrow> bool" where
  "counted_store h rank ext \<longleftrightarrow>
     finite (dom h) \<and> h NULL = None \<and> ranked_store h rank \<and>
     (\<forall>a obj. h a = Some obj \<longrightarrow> ref_count obj = int (inrefs h a + ext a + pinned obj))"

definition give_up :: "(addr \<Rightarrow> nat) \<Rightarrow> addr \<Rightarrow> addr \<Rightarrow> nat" where
  "give_up ext a = ext(a := ext a - 1)"

definition counts_only :: "heap \<Rightarrow> heap \<Rightarrow> bool" where
  "counts_only h h' \<longleftrightarrow>
     (\<forall>c ob'. h' c = Some ob' \<longrightarrow>
        (\<exists>ob. h c = Some ob \<and> ob' = set_ref_count (ref_count ob') ob))"


section \<open>Properties\<close>

subsection \<open>Auxiliary facts\<close>

lemma ascii_range:
  assumes "0x41 \<le> (k::guint)" and "k \<le> 0x5a"
  shows "\<not> (k + 0x20 \<le> 0x5a) \<and> k + 0x20 \<noteq> 0xfe20"
proof -
  from assms have lo: "65 \<le> unat k" and hi: "unat k \<le> 90"
    by (simp_all add: word_le_nat_alt)
  then have sum: "unat (k + 0x20) = unat k + 32"
    by (simp add: unat_word_ariths)
  have "\<not> unat (k + 0x20) \<le> 90" and "unat (k + 0x20) \<noteq> 65056"
    using lo hi sum by simp_all
  then show ?thesis
    by (auto simp: word_le_nat_alt)
qed

lemma ascii_fold_ok: "canonical_lowercase_fold ascii_keyval_to_lower"
  unfolding canonical_lowercase_fold_def ascii_keyval_to_lower_def GDK_KEY_Tab_def GDK_KEY_ISO_Left_Tab_def
  using ascii_range by auto
lemma trigger_alternative_unfold:
  assumes "self \<noteq> NULL" and "h self = Some (GtkAlternativeTrigger rc a b)"
  shows "gtk_shortcut_trigger_trigger lower (Suc n) h self e =
     (case gtk_shortcut_trigger_trigger lower n h a e of
        Inl err \<Rightarrow> Inl err
      | Inr (r1, c1) \<Rightarrow>
          if r1 then Inr (True, self # c1)
          else case gtk_shortcut_trigger_trigger lower n h b e of
                 Inl err \<Rightarrow> Inl err
               | Inr (r2, c2) \<Rightarrow> Inr (r2, self # c1 @ c2))"
  using assms by (simp add: GTK_IS_SHORTCUT_TRIGGER_def split: sum.splits)

lemma trigger_mono:
  "gtk_shortcut_trigger_trigger lower n h self e = Inr r \<Longrightarrow>
     gtk_shortcut_trigger_trigger lower (Suc n) h self e = Inr r"
proof (induction n arbitrary: self r)
  case 0 then show ?case by simp
next
  case (Suc n)
  show ?case
  proof (cases "self = NULL")
    case True with Suc.prems show ?thesis by (simp add: GTK_IS_SHORTCUT_TRIGGER_def)
  next
    case valid: False
    show ?thesis
    proof (cases "h self")
      case None with Suc.prems valid show ?thesis by (simp add: GTK_IS_SHORTCUT_TRIGGER_def)
    next
      case (Some obj)
      show ?thesis
      proof (cases obj)
        case (GtkNeverTrigger rc nv m)
        with Suc.prems valid Some show ?thesis by (simp add: GTK_IS_SHORTCUT_TRIGGER_def)
      next
        case (GtkKeyvalTrigger rc k m)
        with Suc.prems valid Some show ?thesis by (simp add: GTK_IS_SHORTCUT_TRIGGER_def)
      next
        case (GtkAlternativeTrigger rc a b)
        with Some have obj: "h self = Some (GtkAlternativeTrigger rc a b)" by simp
        have lo: "gtk_shortcut_trigger_trigger lower (Suc n) h self e =
           (case gtk_shortcut_trigger_trigger lower n h a e of
              Inl err \<Rightarrow> Inl err
            | Inr (r1, c1) \<Rightarrow>
                if r1 then Inr (True, self # c1)
                else case gtk_shortcut_trigger_trigger lower n h b e of
                       Inl err \<Rightarrow> Inl err
                     | Inr (r2, c2) \<Rightarrow> Inr (r2, self # c1 @ c2))"
          using valid obj by (rule trigger_alternative_unfold)
        have hi: "gtk_shortcut_trigger_trigger lower (Suc (Suc n)) h self e =
           (case gtk_shortcut_trigger_trigger lower (Suc n) h a e of
              Inl err \<Rightarrow> Inl err
            | Inr (r1, c1) \<Rightarrow>
                if r1 then Inr (True, self # c1)
                else case gtk_shortcut_trigger_trigger lower (Suc n) h b e of
                       Inl err \<Rightarrow> Inl err
                     | Inr (r2, c2) \<Rightarrow> Inr (r2, self # c1 @ c2))"
          using valid obj by (rule trigger_alternative_unfold)
        from Suc.prems lo
        obtain r1 c1 where a: "gtk_shortcut_trigger_trigger lower n h a e = Inr (r1, c1)"
          by (cases "gtk_shortcut_trigger_trigger lower n h a e") auto
        note a' = Suc.IH [OF a]
        show ?thesis
        proof (cases r1)
          case True
          from Suc.prems have "r = (True, self # c1)" unfolding lo a using True by simp
          then show ?thesis unfolding hi a' using True by simp
        next
          case False
          from Suc.prems lo a False
          obtain r2 c2 where b: "gtk_shortcut_trigger_trigger lower n h b e = Inr (r2, c2)"
            by (cases "gtk_shortcut_trigger_trigger lower n h b e") auto
          note b' = Suc.IH [OF b]
          from Suc.prems have "r = (r2, self # c1 @ c2)" unfolding lo a b using False by simp
          then show ?thesis unfolding hi a' b' using False by simp
        qed
      qed
    qed
  qed
qed

text \<open>
  In a ranked store the evaluation of an allocated trigger returns, within a depth of one
  more than its rank.
\<close>

lemma trigger_mono_le:
  assumes "gtk_shortcut_trigger_trigger lower n h self e = Inr r" and "n \<le> m"
  shows "gtk_shortcut_trigger_trigger lower m h self e = Inr r"
  using assms(2,1)
proof (induction rule: dec_induct)
  case base
  then show ?case .
next
  case (step k)
  then show ?case by (blast intro: trigger_mono)
qed

lemma trigger_returns:
  assumes "ranked_store h rank"
  shows "h self \<noteq> None \<Longrightarrow>
         \<exists>r. gtk_shortcut_trigger_trigger lower (Suc (rank self)) h self e = Inr r"
proof (induction "rank self" arbitrary: self rule: less_induct)
  case less
  from less.prems obtain obj where obj: "h self = Some obj" by auto
  show ?case
  proof (cases "self = NULL")
    case True
    then have "gtk_shortcut_trigger_trigger lower (Suc (rank self)) h self e = Inr (False, [])"
      by (simp add: GTK_IS_SHORTCUT_TRIGGER_def)
    then show ?thesis by blast
  next
    case valid: False
    show ?thesis
    proof (cases obj)
      case (GtkNeverTrigger rc nv m)
      with valid obj show ?thesis by (simp add: GTK_IS_SHORTCUT_TRIGGER_def)
    next
      case (GtkKeyvalTrigger rc k m)
      with valid obj show ?thesis by (simp add: GTK_IS_SHORTCUT_TRIGGER_def)
    next
      case (GtkAlternativeTrigger rc a b)
      with obj have alt: "h self = Some (GtkAlternativeTrigger rc a b)" by simp
      with assms have kids: "h a \<noteq> None" "rank a < rank self" "h b \<noteq> None" "rank b < rank self"
        unfolding ranked_store_def by blast+
      have sub: "\<exists>r. gtk_shortcut_trigger_trigger lower (rank self) h c e = Inr r"
        if "h c \<noteq> None" and lt: "rank c < rank self" for c
      proof -
        from less.hyps [OF lt that(1)] obtain r where
          "gtk_shortcut_trigger_trigger lower (Suc (rank c)) h c e = Inr r" by blast
        moreover from lt have "Suc (rank c) \<le> rank self" by simp
        ultimately show ?thesis by (blast intro: trigger_mono_le)
      qed
      from sub [OF kids(1,2)] obtain r1 c1 where
        a: "gtk_shortcut_trigger_trigger lower (rank self) h a e = Inr (r1, c1)" by force
      from sub [OF kids(3,4)] obtain r2 c2 where
        b: "gtk_shortcut_trigger_trigger lower (rank self) h b e = Inr (r2, c2)" by force
      have "gtk_shortcut_trigger_trigger lower (Suc (rank self)) h self e =
          Inr (r1 \<or> r2, self # c1 @ (if r1 then [] else c2))"
        using valid alt a b
          trigger_alternative_unfold [where self = self and h = h and rc = rc and a = a and b = b
            and lower = lower and n = "rank self" and e = e]
        by (simp del: gtk_shortcut_trigger_trigger.simps)
      then show ?thesis by blast
    qed
  qed
qed

lemma alternative_trigger_new_valid:
  assumes "GTK_IS_SHORTCUT_TRIGGER A" and "GTK_IS_SHORTCUT_TRIGGER B"
  shows "gtk_alternative_trigger_new mem h A B = (mem, h(mem \<mapsto> GtkAlternativeTrigger 1 A B))"
  using assms by (simp add: gtk_alternative_trigger_new_def gtk_shortcut_trigger_new_def)

text \<open>
  The static store is ranked, and both constructors keep a store ranked.
\<close>

lemma ranked_static_heap: "ranked_store static_heap rank"
  by (simp add: ranked_store_def static_heap_def)

lemma ranked_keyval_trigger_new:
  assumes "ranked_store h rank" and "h mem = None"
  shows "ranked_store (snd (gtk_keyval_trigger_new lower mem h keyval modifiers)) rank"
  using assms
  by (auto simp: ranked_store_def gtk_keyval_trigger_new_def gtk_shortcut_trigger_new_def)

lemma ranked_alternative_trigger_new:
  assumes "ranked_store h rank" and "h mem = None" and "h A \<noteq> None" and "h B \<noteq> None"
  shows "ranked_store (snd (gtk_alternative_trigger_new mem h A B))
           (rank(mem := Suc (max (rank A) (rank B))))"
proof (cases "GTK_IS_SHORTCUT_TRIGGER A \<and> GTK_IS_SHORTCUT_TRIGGER B")
  case True
  then have new: "snd (gtk_alternative_trigger_new mem h A B) = h(mem \<mapsto> GtkAlternativeTrigger 1 A B)"
    by (simp add: alternative_trigger_new_valid)
  from assms have ne: "A \<noteq> mem" "B \<noteq> mem" by auto
  have old: "h a \<noteq> None \<and> rank a < rank p \<and> h b \<noteq> None \<and> rank b < rank p
      \<and> a \<noteq> mem \<and> b \<noteq> mem \<and> p \<noteq> mem"
    if "h p = Some (GtkAlternativeTrigger rc a b)" for p rc a b
  proof -
    from assms(1) that have kids: "h a \<noteq> None" "rank a < rank p" "h b \<noteq> None" "rank b < rank p"
      unfolding ranked_store_def by blast+
    from kids(1,3) that assms(2) have "a \<noteq> mem" "b \<noteq> mem" "p \<noteq> mem" by auto
    with kids show ?thesis by simp
  qed
  show ?thesis
    unfolding new ranked_store_def
  proof (intro allI impI)
    fix p rc a b
    assume p: "(h(mem \<mapsto> GtkAlternativeTrigger 1 A B)) p = Some (GtkAlternativeTrigger rc a b)"
    show "(h(mem \<mapsto> GtkAlternativeTrigger 1 A B)) a \<noteq> None \<and>
        (rank(mem := Suc (max (rank A) (rank B)))) a < (rank(mem := Suc (max (rank A) (rank B)))) p \<and>
        (h(mem \<mapsto> GtkAlternativeTrigger 1 A B)) b \<noteq> None \<and>
        (rank(mem := Suc (max (rank A) (rank B)))) b < (rank(mem := Suc (max (rank A) (rank B)))) p"
    proof (cases "p = mem")
      case True
      with p have "a = A" "b = B" by simp_all
      with True ne assms(3,4) show ?thesis by (simp add: less_Suc_eq_le)
    next
      case False
      with p have "h p = Some (GtkAlternativeTrigger rc a b)" by simp
      from old [OF this] False show ?thesis by simp
    qed
  qed
next
  case False
  then have "snd (gtk_alternative_trigger_new mem h A B) = h"
    by (auto simp: gtk_alternative_trigger_new_def)
  moreover have "ranked_store h (rank(mem := Suc (max (rank A) (rank B))))"
    unfolding ranked_store_def
  proof (intro allI impI)
    fix p rc a b
    assume p: "h p = Some (GtkAlternativeTrigger rc a b)"
    from assms(1) p have kids: "h a \<noteq> None" "rank a < rank p" "h b \<noteq> None" "rank b < rank p"
      unfolding ranked_store_def by blast+
    from kids(1,3) p assms(2) have "a \<noteq> mem" "b \<noteq> mem" "p \<noteq> mem" by auto
    with kids
    show "h a \<noteq> None \<and>
        (rank(mem := Suc (max (rank A) (rank B)))) a < (rank(mem := Suc (max (rank A) (rank B)))) p \<and>
        h b \<noteq> None \<and>
        (rank(mem := Suc (max (rank A) (rank B)))) b < (rank(mem := Suc (max (rank A) (rank B)))) p"
      by simp
  qed
  ultimately show ?thesis by simp
qed











lemma inrefs_free:
  assumes "finite (dom h)" and "h a = Some obj"
  shows "inrefs h c = inrefs (h(a := None)) c + slots obj c"
proof -
  from assms(2) have a: "a \<in> dom h" by auto
  have d: "dom (h(a := None)) = dom h - {a}" by auto
  have "inrefs h c = (case h a of None \<Rightarrow> 0 | Some obj \<Rightarrow> slots obj c)
      + (\<Sum>p\<in>dom h - {a}. case h p of None \<Rightarrow> 0 | Some obj \<Rightarrow> slots obj c)"
    unfolding inrefs_def using assms(1) a by (rule sum.remove)
  also have "(\<Sum>p\<in>dom h - {a}. case h p of None \<Rightarrow> 0 | Some obj \<Rightarrow> slots obj c)
      = inrefs (h(a := None)) c"
    unfolding inrefs_def d by (rule sum.cong) auto
  finally show ?thesis using assms(2) by simp
qed




text \<open>
  In a counted store the release of a reference that a caller holds returns, within a
  depth of one more than the rank of the object; the store it leaves is counted for the
  callers' remaining references, differs from the old one in counts and freed objects
  only, and keeps every object on which a caller still holds a reference.
\<close>

lemma set_ref_count_same: "set_ref_count (ref_count obj) obj = obj"
  by (cases obj) simp_all


lemma counts_only_refl: "counts_only h h"
  unfolding counts_only_def by (simp add: set_ref_count_same)




lemma counts_only_gone:
  assumes "counts_only h h'" and "h p = None"
  shows "h' p = None"
proof (cases "h' p")
  case None
  then show ?thesis .
next
  case (Some ob')
  with assms(1) obtain ob where "h p = Some ob"
    unfolding counts_only_def by blast
  with assms(2) show ?thesis by simp
qed



text \<open>
  The static store is counted with no reference held by anybody, and both constructors
  keep a store counted: the new object belongs to the caller, and the alternative takes
  over the references the caller held on its two arguments.
\<close>

lemma inrefs_alloc:
  assumes "finite (dom h)" and "h mem = None"
  shows "inrefs (h(mem \<mapsto> obj)) c = inrefs h c + slots obj c"
proof -
  have "finite (dom (h(mem \<mapsto> obj)))" using assms(1) by simp
  moreover have "(h(mem \<mapsto> obj)) mem = Some obj" by simp
  ultimately have "inrefs (h(mem \<mapsto> obj)) c = inrefs ((h(mem \<mapsto> obj))(mem := None)) c + slots obj c"
    using inrefs_free [where h = "h(mem \<mapsto> obj)" and a = mem and obj = obj and c = c] by simp
  moreover have "(h(mem \<mapsto> obj))(mem := None) = h"
    using assms(2) by (simp add: fun_upd_idem)
  ultimately show ?thesis by simp
qed

lemma inrefs_unallocated:
  assumes "finite (dom h)" and "ranked_store h rank" and "h c = None"
  shows "inrefs h c = 0"
proof -
  have "(case h p of None \<Rightarrow> 0 | Some obj \<Rightarrow> slots obj c) = 0" for p
  proof (cases "h p")
    case None
    then show ?thesis by simp
  next
    case (Some obj)
    show ?thesis
    proof (cases obj)
      case (GtkAlternativeTrigger rc u v)
      with Some assms(2) have "h u \<noteq> None" "h v \<noteq> None"
        unfolding ranked_store_def by blast+
      with assms(3) have "u \<noteq> c" "v \<noteq> c" by auto
      with Some GtkAlternativeTrigger show ?thesis by simp
    qed (simp_all add: Some)
  qed
  then show ?thesis unfolding inrefs_def by simp
qed

lemma counted_static_heap: "counted_store static_heap rank (\<lambda>c. 0)"
proof -
  have "inrefs static_heap c = 0" for c
    unfolding inrefs_def static_heap_def by simp
  then show ?thesis
    unfolding counted_store_def
    by (auto simp: ranked_static_heap)
      (auto simp: static_heap_def never_def NULL_def split: if_splits)
qed

lemma counted_keyval_trigger_new:
  assumes st: "counted_store h rank ext" and fresh: "h mem = None" and mem: "mem \<noteq> NULL"
  shows "counted_store (snd (gtk_keyval_trigger_new lower mem h keyval modifiers)) rank
           (ext(mem := 1))"
proof -
  let ?obj = "GtkKeyvalTrigger 1 (normalize_keyval lower keyval) modifiers"
  let ?h = "h(mem \<mapsto> ?obj)"
  have new: "snd (gtk_keyval_trigger_new lower mem h keyval modifiers) = ?h"
    by (simp add: gtk_keyval_trigger_new_def gtk_shortcut_trigger_new_def)
  from st have fin: "finite (dom h)" and null: "h NULL = None" and rk: "ranked_store h rank"
    and cnt: "\<And>c ob. h c = Some ob \<Longrightarrow> ref_count ob = int (inrefs h c + ext c + pinned ob)"
    unfolding counted_store_def by blast+
  have same: "inrefs ?h c = inrefs h c" for c
    using inrefs_alloc [OF fin fresh, of ?obj c] by simp
  have rk': "ranked_store ?h rank"
    using ranked_keyval_trigger_new [OF rk fresh, of lower keyval modifiers] by (simp only: new)
  have cnt': "ref_count ob = int (inrefs ?h c + (ext(mem := 1)) c + pinned ob)"
    if c: "?h c = Some ob" for c ob
  proof (cases "c = mem")
    case True
    with c have "ob = ?obj" by simp
    moreover have "inrefs h mem = 0" using fin rk fresh by (rule inrefs_unallocated)
    ultimately show ?thesis using True by (simp add: same)
  next
    case False
    with c have "h c = Some ob" by simp
    from cnt [OF this] False show ?thesis by (simp add: same)
  qed
  have "finite (dom ?h)" using fin by simp
  moreover have "?h NULL = None" using null mem by simp
  ultimately show ?thesis
    unfolding new counted_store_def using rk' cnt' by blast
qed

lemma counted_alternative_trigger_new:
  assumes st: "counted_store h rank ext" and fresh: "h mem = None" and mem: "mem \<noteq> NULL"
    and A: "h A \<noteq> None" and B: "h B \<noteq> None"
    and ownA: "0 < ext A" and ownB: "0 < ext B" and twice: "A = B \<longrightarrow> 1 < ext A"
  shows "counted_store (snd (gtk_alternative_trigger_new mem h A B))
           (rank(mem := Suc (max (rank A) (rank B))))
           ((give_up (give_up ext A) B)(mem := 1))"
proof -
  let ?obj = "GtkAlternativeTrigger 1 A B"
  let ?h = "h(mem \<mapsto> ?obj)"
  let ?rank = "rank(mem := Suc (max (rank A) (rank B)))"
  let ?ext = "(give_up (give_up ext A) B)(mem := 1)"
  from st have fin: "finite (dom h)" and null: "h NULL = None" and rk: "ranked_store h rank"
    and cnt: "\<And>c ob. h c = Some ob \<Longrightarrow> ref_count ob = int (inrefs h c + ext c + pinned ob)"
    unfolding counted_store_def by blast+
  from null A B have valid: "GTK_IS_SHORTCUT_TRIGGER A" "GTK_IS_SHORTCUT_TRIGGER B"
    by (auto simp: GTK_IS_SHORTCUT_TRIGGER_def)
  have new: "snd (gtk_alternative_trigger_new mem h A B) = ?h"
    using valid by (simp add: alternative_trigger_new_valid)
  from A B fresh have ne: "A \<noteq> mem" "B \<noteq> mem" by auto
  have more: "inrefs ?h c = inrefs h c + slots ?obj c" for c
    using fin fresh by (rule inrefs_alloc)
  have rk': "ranked_store ?h ?rank"
    using ranked_alternative_trigger_new [OF rk fresh A B] by (simp only: new)
  have cnt': "ref_count ob = int (inrefs ?h c + ?ext c + pinned ob)"
    if c: "?h c = Some ob" for c ob
  proof (cases "c = mem")
    case True
    with c have "ob = ?obj" by simp
    moreover have "inrefs h mem = 0" using fin rk fresh by (rule inrefs_unallocated)
    ultimately show ?thesis using True ne by (simp add: more)
  next
    case False
    with c have "h c = Some ob" by simp
    from cnt [OF this] False ownA ownB twice show ?thesis
      by (auto simp: more give_up_def)
  qed
  have "finite (dom ?h)" using fin by simp
  moreover have "?h NULL = None" using null mem by simp
  ultimately show ?thesis
    unfolding new counted_store_def using rk' cnt' by blast
qed

lemma normalize_keyval_needs_fold:
  assumes "\<forall>K. normalize_keyval lower (normalize_keyval lower K) = normalize_keyval lower K"
  shows "lower GDK_KEY_Tab = GDK_KEY_Tab \<and>
         (\<forall>k. k \<noteq> GDK_KEY_ISO_Left_Tab \<longrightarrow>
              lower k \<noteq> GDK_KEY_ISO_Left_Tab \<and> lower (lower k) = lower k)"
proof (intro conjI allI impI)
  from assms have "normalize_keyval lower (normalize_keyval lower GDK_KEY_ISO_Left_Tab)
      = normalize_keyval lower GDK_KEY_ISO_Left_Tab" by blast
  then show "lower GDK_KEY_Tab = GDK_KEY_Tab"
    by (simp add: normalize_keyval_def GDK_KEY_Tab_def GDK_KEY_ISO_Left_Tab_def)
next
  fix k assume k: "k \<noteq> GDK_KEY_ISO_Left_Tab"
  from assms have eq: "normalize_keyval lower (normalize_keyval lower k) = normalize_keyval lower k"
    by blast
  show "lower k \<noteq> GDK_KEY_ISO_Left_Tab"
  proof
    assume "lower k = GDK_KEY_ISO_Left_Tab"
    with eq k show False
      by (simp add: normalize_keyval_def GDK_KEY_Tab_def GDK_KEY_ISO_Left_Tab_def)
  qed
  with eq k show "lower (lower k) = lower k"
    by (simp add: normalize_keyval_def)
qed

subsection \<open>Evaluation of the never and keyval triggers\<close>

text \<open>
  Claim C1. A keyval trigger that stores the key value \<open>K\<close> and the modifiers \<open>M\<close>
  evaluates an event to true exactly when the event is a key press, its key value after
  normalization (left-tab to tab, otherwise the lowercase fold) equals \<open>K\<close>, and its
  modifier state equals \<open>M\<close> bit for bit. In particular every event that is not a key
  press evaluates to false. One level of dispatch is all the call needs, and the class
  evaluator of the trigger is the only one invoked.
\<close>

theorem keyval_trigger_evaluate:
  assumes "self \<noteq> NULL" and "h self = Some (GtkKeyvalTrigger rc K M)"
  shows "gtk_shortcut_trigger_trigger lower (Suc n) h self e =
     Inr (event_type e = GDK_KEY_PRESS \<and>
          (if event_keyval e = GDK_KEY_ISO_Left_Tab then GDK_KEY_Tab
           else lower (event_keyval e)) = K \<and>
          modifier_state e = M, [self])"
  using assms
  by (simp add: GTK_IS_SHORTCUT_TRIGGER_def gtk_keyval_trigger_trigger_def Let_def
      normalize_keyval_def gdk_event_get_event_type_def gdk_key_event_get_keyval_def
      gdk_event_get_modifier_state_def)

theorem keyval_trigger_evaluate_witness:
  "(2::addr) \<noteq> NULL \<and>
   snd (gtk_keyval_trigger_new ascii_keyval_to_lower 2 static_heap 0x61 4) 2
     = Some (GtkKeyvalTrigger 1 0x61 4) \<and>
   gtk_shortcut_trigger_trigger ascii_keyval_to_lower (Suc 0)
     (snd (gtk_keyval_trigger_new ascii_keyval_to_lower 2 static_heap 0x61 4)) 2
     \<lparr>event_type = GDK_KEY_PRESS, modifier_state = 4, event_keyval = 0x41\<rparr> = Inr (True, [2]) \<and>
   gtk_shortcut_trigger_trigger ascii_keyval_to_lower (Suc 0)
     (snd (gtk_keyval_trigger_new ascii_keyval_to_lower 2 static_heap 0x61 4)) 2
     \<lparr>event_type = GDK_KEY_PRESS, modifier_state = 5, event_keyval = 0x61\<rparr> = Inr (False, [2]) \<and>
   gtk_shortcut_trigger_trigger ascii_keyval_to_lower (Suc 0)
     (snd (gtk_keyval_trigger_new ascii_keyval_to_lower 2 static_heap 0x61 4)) 2
     \<lparr>event_type = GDK_KEY_RELEASE, modifier_state = 4, event_keyval = 0x61\<rparr> = Inr (False, [2]) \<and>
   snd (gtk_keyval_trigger_new ascii_keyval_to_lower 3 static_heap 0xff09 1) 3
     = Some (GtkKeyvalTrigger 1 0xff09 1) \<and>
   gtk_shortcut_trigger_trigger ascii_keyval_to_lower (Suc 0)
     (snd (gtk_keyval_trigger_new ascii_keyval_to_lower 3 static_heap 0xff09 1)) 3
     \<lparr>event_type = GDK_KEY_PRESS, modifier_state = 1, event_keyval = 0xfe20\<rparr> = Inr (True, [3]) \<and>
   gtk_shortcut_trigger_trigger ascii_keyval_to_lower (Suc 0)
     (snd (gtk_keyval_trigger_new ascii_keyval_to_lower 3 static_heap 0xfe20 1)) 3
     \<lparr>event_type = GDK_KEY_PRESS, modifier_state = 1, event_keyval = 0xfe20\<rparr> = Inr (True, [3])"
proof -
  let ?h = "snd (gtk_keyval_trigger_new ascii_keyval_to_lower 2 static_heap 0x61 4)"
  let ?t = "snd (gtk_keyval_trigger_new ascii_keyval_to_lower 3 static_heap 0xff09 1)"
  let ?l = "snd (gtk_keyval_trigger_new ascii_keyval_to_lower 3 static_heap 0xfe20 1)"
  have valid: "(2::addr) \<noteq> NULL" "(3::addr) \<noteq> NULL" by (simp_all add: NULL_def)
  have obj: "?h 2 = Some (GtkKeyvalTrigger 1 0x61 4)"
    by (simp add: gtk_keyval_trigger_new_def gtk_shortcut_trigger_new_def normalize_keyval_def
        ascii_keyval_to_lower_def GDK_KEY_ISO_Left_Tab_def)
  have tab: "?t 3 = Some (GtkKeyvalTrigger 1 0xff09 1)"
    by (simp add: gtk_keyval_trigger_new_def gtk_shortcut_trigger_new_def normalize_keyval_def
        ascii_keyval_to_lower_def GDK_KEY_ISO_Left_Tab_def)
  have left: "?l 3 = Some (GtkKeyvalTrigger 1 0xff09 1)"
    by (simp add: gtk_keyval_trigger_new_def gtk_shortcut_trigger_new_def normalize_keyval_def
        ascii_keyval_to_lower_def GDK_KEY_ISO_Left_Tab_def GDK_KEY_Tab_def)
  show ?thesis
    using valid obj tab left
      keyval_trigger_evaluate [where self = 2 and h = "?h" and rc = 1 and K = "0x61" and M = 4
        and lower = ascii_keyval_to_lower and n = 0
        and e = "\<lparr>event_type = GDK_KEY_PRESS, modifier_state = 4, event_keyval = 0x41\<rparr>"]
      keyval_trigger_evaluate [where self = 2 and h = "?h" and rc = 1 and K = "0x61" and M = 4
        and lower = ascii_keyval_to_lower and n = 0
        and e = "\<lparr>event_type = GDK_KEY_PRESS, modifier_state = 5, event_keyval = 0x61\<rparr>"]
      keyval_trigger_evaluate [where self = 2 and h = "?h" and rc = 1 and K = "0x61" and M = 4
        and lower = ascii_keyval_to_lower and n = 0
        and e = "\<lparr>event_type = GDK_KEY_RELEASE, modifier_state = 4, event_keyval = 0x61\<rparr>"]
      keyval_trigger_evaluate [where self = 3 and h = "?t" and rc = 1 and K = "0xff09" and M = 1
        and lower = ascii_keyval_to_lower and n = 0
        and e = "\<lparr>event_type = GDK_KEY_PRESS, modifier_state = 1, event_keyval = 0xfe20\<rparr>"]
      keyval_trigger_evaluate [where self = 3 and h = "?l" and rc = 1 and K = "0xff09" and M = 1
        and lower = ascii_keyval_to_lower and n = 0
        and e = "\<lparr>event_type = GDK_KEY_PRESS, modifier_state = 1, event_keyval = 0xfe20\<rparr>"]
    by (simp add: ascii_keyval_to_lower_def GDK_KEY_ISO_Left_Tab_def GDK_KEY_Tab_def)
qed

text \<open>
  Claim C3. The never trigger evaluates every event to false.
\<close>

theorem never_trigger_evaluate:
  assumes "self \<noteq> NULL" and "h self = Some (GtkNeverTrigger rc nv m)"
  shows "gtk_shortcut_trigger_trigger lower (Suc n) h self e = Inr (False, [self])"
  using assms by (simp add: GTK_IS_SHORTCUT_TRIGGER_def gtk_never_trigger_trigger_def)

theorem never_trigger_evaluate_witness:
  "gtk_never_trigger_get \<noteq> NULL \<and>
   static_heap gtk_never_trigger_get = Some (GtkNeverTrigger 1 0 0) \<and>
   gtk_shortcut_trigger_trigger ascii_keyval_to_lower (Suc 0) static_heap gtk_never_trigger_get
     \<lparr>event_type = GDK_KEY_PRESS, modifier_state = 0, event_keyval = 0x61\<rparr>
     = Inr (False, [gtk_never_trigger_get])"
proof -
  have valid: "gtk_never_trigger_get \<noteq> NULL"
    by (simp add: gtk_never_trigger_get_def never_def NULL_def)
  have obj: "static_heap gtk_never_trigger_get = Some (GtkNeverTrigger 1 0 0)"
    by (simp add: static_heap_def gtk_never_trigger_get_def)
  show ?thesis
    using valid obj never_trigger_evaluate [where self = gtk_never_trigger_get and h = static_heap
        and rc = 1 and nv = 0 and m = 0 and lower = ascii_keyval_to_lower and n = 0
        and e = "\<lparr>event_type = GDK_KEY_PRESS, modifier_state = 0, event_keyval = 0x61\<rparr>"]
    by simp
qed

subsection \<open>The keyval constructor and its normalization\<close>

text \<open>
  Claim C4. A trigger made by \<open>gtk_keyval_trigger_new\<close> from the key value \<open>K\<close> and the
  modifiers \<open>M\<close> reports, through its accessors, the normalized key value (tab when
  \<open>K\<close> is the left-tab code, otherwise the lowercase fold of \<open>K\<close>) and \<open>M\<close> itself.
\<close>

theorem keyval_trigger_new_accessors:
  assumes "mem \<noteq> NULL"
  shows "case gtk_keyval_trigger_new lower mem h K M of
           (t, h') \<Rightarrow>
             gtk_keyval_trigger_get_keyval h' t =
               Inr (if K = GDK_KEY_ISO_Left_Tab then GDK_KEY_Tab else lower K) \<and>
             gtk_keyval_trigger_get_modifiers h' t = Inr M"
  using assms
  by (simp add: gtk_keyval_trigger_new_def gtk_shortcut_trigger_new_def normalize_keyval_def
      gtk_keyval_trigger_get_keyval_def gtk_keyval_trigger_get_modifiers_def
      GTK_IS_SHORTCUT_TRIGGER_TYPE_def GTK_IS_SHORTCUT_TRIGGER_def)

theorem keyval_trigger_new_accessors_witness:
  "(2::addr) \<noteq> NULL \<and>
   gtk_keyval_trigger_get_keyval
     (snd (gtk_keyval_trigger_new ascii_keyval_to_lower 2 static_heap 0x41 5))
     (fst (gtk_keyval_trigger_new ascii_keyval_to_lower 2 static_heap 0x41 5)) = Inr 0x61 \<and>
   gtk_keyval_trigger_get_modifiers
     (snd (gtk_keyval_trigger_new ascii_keyval_to_lower 2 static_heap 0x41 5))
     (fst (gtk_keyval_trigger_new ascii_keyval_to_lower 2 static_heap 0x41 5)) = Inr 5 \<and>
   gtk_keyval_trigger_get_keyval
     (snd (gtk_keyval_trigger_new ascii_keyval_to_lower 2 static_heap GDK_KEY_ISO_Left_Tab 1))
     (fst (gtk_keyval_trigger_new ascii_keyval_to_lower 2 static_heap GDK_KEY_ISO_Left_Tab 1))
     = Inr GDK_KEY_Tab"
proof -
  have valid: "(2::addr) \<noteq> NULL" by (simp add: NULL_def)
  show ?thesis
    using valid
      keyval_trigger_new_accessors [OF valid, where lower = ascii_keyval_to_lower
        and h = static_heap and K = "0x41" and M = 5]
      keyval_trigger_new_accessors [OF valid, where lower = ascii_keyval_to_lower
        and h = static_heap and K = GDK_KEY_ISO_Left_Tab and M = 1]
    by (simp add: split_beta ascii_keyval_to_lower_def GDK_KEY_ISO_Left_Tab_def)
qed

text \<open>
  Claim C5. The normalization shared by the constructor and the evaluator is idempotent,
  and it sends the left-tab code and the tab code to the same value, for every lowercase
  fold that is a canonical fold in the sense of the spec. The lemma
  \<open>normalize_keyval_needs_fold\<close> above shows that idempotence asks this much of the fold.
\<close>

theorem normalize_keyval_idempotent:
  assumes "canonical_lowercase_fold lower"
  shows "normalize_keyval lower (normalize_keyval lower K) = normalize_keyval lower K \<and>
         normalize_keyval lower GDK_KEY_ISO_Left_Tab = normalize_keyval lower GDK_KEY_Tab"
  using assms unfolding canonical_lowercase_fold_def normalize_keyval_def
  by (auto simp: GDK_KEY_Tab_def GDK_KEY_ISO_Left_Tab_def)

theorem normalize_keyval_idempotent_witness:
  "canonical_lowercase_fold ascii_keyval_to_lower \<and>
   normalize_keyval ascii_keyval_to_lower (normalize_keyval ascii_keyval_to_lower 0x41) = 0x61 \<and>
   normalize_keyval ascii_keyval_to_lower 0x41 = 0x61 \<and>
   normalize_keyval ascii_keyval_to_lower GDK_KEY_ISO_Left_Tab = GDK_KEY_Tab \<and>
   normalize_keyval ascii_keyval_to_lower GDK_KEY_Tab = GDK_KEY_Tab"
  using ascii_fold_ok normalize_keyval_idempotent [OF ascii_fold_ok, where K = "0x41"]
  by (simp add: normalize_keyval_def ascii_keyval_to_lower_def GDK_KEY_ISO_Left_Tab_def GDK_KEY_Tab_def)

subsection \<open>Evaluation of the alternative trigger\<close>

text \<open>
  Claim C2. An alternative trigger over \<open>first\<close> and \<open>second\<close> evaluates an event to the
  disjunction of what the two sub-triggers evaluate it to, and it short-circuits: when
  \<open>first\<close> matches, the evaluators invoked are the alternative's own and those the
  evaluation of \<open>first\<close> invoked, and nothing is asked of \<open>second\<close>, not even that its
  evaluation returns. When \<open>first\<close> does not match, the calls of \<open>second\<close> follow those of
  \<open>first\<close>. That the sub-triggers of a ranked store do return is \<open>trigger_returns\<close>.
\<close>

theorem alternative_trigger_evaluate:
  assumes "self \<noteq> NULL" and "h self = Some (GtkAlternativeTrigger rc first second)"
    and "gtk_shortcut_trigger_trigger lower n h first e = Inr (r1, c1)"
    and "\<not> r1 \<Longrightarrow> gtk_shortcut_trigger_trigger lower n h second e = Inr (r2, c2)"
  shows "gtk_shortcut_trigger_trigger lower (Suc n) h self e =
     Inr (r1 \<or> r2, self # c1 @ (if r1 then [] else c2))"
  using assms by (cases r1) (simp_all add: GTK_IS_SHORTCUT_TRIGGER_def)

theorem alternative_trigger_evaluate_witness:
  "(3::addr) \<noteq> NULL \<and>
   [(1::addr) \<mapsto> GtkNeverTrigger 2 0 0, 2 \<mapsto> GtkKeyvalTrigger 1 0x78 0,
    3 \<mapsto> GtkAlternativeTrigger 1 1 2, 4 \<mapsto> GtkAlternativeTrigger 1 2 9] 3
     = Some (GtkAlternativeTrigger 1 1 2) \<and>
   gtk_shortcut_trigger_trigger ascii_keyval_to_lower (Suc (Suc 0))
     [(1::addr) \<mapsto> GtkNeverTrigger 2 0 0, 2 \<mapsto> GtkKeyvalTrigger 1 0x78 0,
      3 \<mapsto> GtkAlternativeTrigger 1 1 2, 4 \<mapsto> GtkAlternativeTrigger 1 2 9] 3
     \<lparr>event_type = GDK_KEY_PRESS, modifier_state = 0, event_keyval = 0x78\<rparr>
     = Inr (True, [3, 1, 2]) \<and>
   gtk_shortcut_trigger_trigger ascii_keyval_to_lower (Suc (Suc 0))
     [(1::addr) \<mapsto> GtkNeverTrigger 2 0 0, 2 \<mapsto> GtkKeyvalTrigger 1 0x78 0,
      3 \<mapsto> GtkAlternativeTrigger 1 1 2, 4 \<mapsto> GtkAlternativeTrigger 1 2 9] 4
     \<lparr>event_type = GDK_KEY_PRESS, modifier_state = 0, event_keyval = 0x78\<rparr>
     = Inr (True, [4, 2])"
proof -
  let ?h = "[(1::addr) \<mapsto> GtkNeverTrigger 2 0 0, 2 \<mapsto> GtkKeyvalTrigger 1 0x78 0,
      3 \<mapsto> GtkAlternativeTrigger 1 1 2, 4 \<mapsto> GtkAlternativeTrigger 1 2 (9::addr)]"
  let ?e = "\<lparr>event_type = GDK_KEY_PRESS, modifier_state = 0, event_keyval = 0x78\<rparr>"
  have v3: "(3::addr) \<noteq> NULL" and v4: "(4::addr) \<noteq> NULL" by (simp_all add: NULL_def)
  have o3: "?h 3 = Some (GtkAlternativeTrigger 1 1 2)" by simp
  have o4: "?h 4 = Some (GtkAlternativeTrigger 1 2 9)" by simp
  have e1: "gtk_shortcut_trigger_trigger ascii_keyval_to_lower (Suc 0) ?h 1 ?e = Inr (False, [1])"
    by (simp add: GTK_IS_SHORTCUT_TRIGGER_def NULL_def gtk_never_trigger_trigger_def)
  have e2: "gtk_shortcut_trigger_trigger ascii_keyval_to_lower (Suc 0) ?h 2 ?e = Inr (True, [2])"
    by (simp add: GTK_IS_SHORTCUT_TRIGGER_def NULL_def gtk_keyval_trigger_trigger_def
        gdk_event_get_event_type_def gdk_key_event_get_keyval_def gdk_event_get_modifier_state_def
        normalize_keyval_def ascii_keyval_to_lower_def GDK_KEY_ISO_Left_Tab_def)
  have a: "gtk_shortcut_trigger_trigger ascii_keyval_to_lower (Suc (Suc 0)) ?h 3 ?e
      = Inr (False \<or> True, 3 # [1] @ (if False then [] else [2]))"
    using v3 o3 e1 e2 by (rule alternative_trigger_evaluate)
  have b: "gtk_shortcut_trigger_trigger ascii_keyval_to_lower (Suc (Suc 0)) ?h 4 ?e
      = Inr (True \<or> False, 4 # [2] @ (if True then [] else []))"
    using v4 o4 e2 by (rule alternative_trigger_evaluate) simp
  show ?thesis using v3 o3 a b by simp
qed

text \<open>
  Claim C6. Nesting alternatives to the left or to the right gives the same outcome: for
  sub-triggers \<open>A\<close>, \<open>B\<close> and \<open>C\<close> that evaluate the event to \<open>ra\<close>, \<open>rb\<close> and \<open>rc\<close>,
  both \<open>Alt (Alt A B) C\<close> and \<open>Alt A (Alt B C)\<close> evaluate it to \<open>ra \<or> rb \<or> rc\<close>. The
  lists of invoked evaluators differ, as the structures do.
\<close>

theorem alternative_trigger_associative:
  assumes valid: "ab \<noteq> NULL" "ab_c \<noteq> NULL" "bc \<noteq> NULL" "a_bc \<noteq> NULL"
    and ab: "h ab = Some (GtkAlternativeTrigger rc1 A B)"
    and ab_c: "h ab_c = Some (GtkAlternativeTrigger rc2 ab C)"
    and bc: "h bc = Some (GtkAlternativeTrigger rc3 B C)"
    and a_bc: "h a_bc = Some (GtkAlternativeTrigger rc4 A bc)"
    and A: "gtk_shortcut_trigger_trigger lower n h A e = Inr (ra, ca)"
    and B: "gtk_shortcut_trigger_trigger lower n h B e = Inr (rb, cb)"
    and C: "gtk_shortcut_trigger_trigger lower n h C e = Inr (rc, cc)"
  shows "\<exists>calls1 calls2.
           gtk_shortcut_trigger_trigger lower (Suc (Suc n)) h ab_c e = Inr (ra \<or> rb \<or> rc, calls1) \<and>
           gtk_shortcut_trigger_trigger lower (Suc (Suc n)) h a_bc e = Inr (ra \<or> rb \<or> rc, calls2)"
proof -
  note A' = trigger_mono [OF A] and C' = trigger_mono [OF C]
  have e_ab: "gtk_shortcut_trigger_trigger lower (Suc n) h ab e =
      Inr (ra \<or> rb, ab # ca @ (if ra then [] else cb))"
    using valid(1) ab A B
      trigger_alternative_unfold [where self = ab and h = h and rc = rc1 and a = A and b = B
        and lower = lower and n = n and e = e]
    by (simp del: gtk_shortcut_trigger_trigger.simps)
  have e_bc: "gtk_shortcut_trigger_trigger lower (Suc n) h bc e =
      Inr (rb \<or> rc, bc # cb @ (if rb then [] else cc))"
    using valid(3) bc B C
      trigger_alternative_unfold [where self = bc and h = h and rc = rc3 and a = B and b = C
        and lower = lower and n = n and e = e]
    by (simp del: gtk_shortcut_trigger_trigger.simps)
  have left: "gtk_shortcut_trigger_trigger lower (Suc (Suc n)) h ab_c e =
      Inr (ra \<or> rb \<or> rc, ab_c # (ab # ca @ (if ra then [] else cb)) @ (if ra \<or> rb then [] else cc))"
    using valid(2) ab_c e_ab C'
      trigger_alternative_unfold [where self = ab_c and h = h and rc = rc2 and a = ab and b = C
        and lower = lower and n = "Suc n" and e = e]
    by (simp del: gtk_shortcut_trigger_trigger.simps)
  have right: "gtk_shortcut_trigger_trigger lower (Suc (Suc n)) h a_bc e =
      Inr (ra \<or> rb \<or> rc, a_bc # ca @ (if ra then [] else bc # cb @ (if rb then [] else cc)))"
    using valid(4) a_bc e_bc A'
      trigger_alternative_unfold [where self = a_bc and h = h and rc = rc4 and a = A and b = bc
        and lower = lower and n = "Suc n" and e = e]
    by (simp del: gtk_shortcut_trigger_trigger.simps)
  from left right show ?thesis by blast
qed

theorem alternative_trigger_associative_witness:
  "(4::addr) \<noteq> NULL \<and> (5::addr) \<noteq> NULL \<and> (6::addr) \<noteq> NULL \<and> (7::addr) \<noteq> NULL \<and>
   [(1::addr) \<mapsto> GtkNeverTrigger 3 0 0, 2 \<mapsto> GtkKeyvalTrigger 2 0x78 0,
     3 \<mapsto> GtkKeyvalTrigger 2 0x79 0, 4 \<mapsto> GtkAlternativeTrigger 1 1 2,
     5 \<mapsto> GtkAlternativeTrigger 1 4 3, 6 \<mapsto> GtkAlternativeTrigger 1 2 3,
     7 \<mapsto> GtkAlternativeTrigger 1 1 6] 5 = Some (GtkAlternativeTrigger 1 4 3) \<and>
   gtk_shortcut_trigger_trigger ascii_keyval_to_lower (Suc 0)
     [1 \<mapsto> GtkNeverTrigger 3 0 0, 2 \<mapsto> GtkKeyvalTrigger 2 0x78 0,
      3 \<mapsto> GtkKeyvalTrigger 2 0x79 0, 4 \<mapsto> GtkAlternativeTrigger 1 1 2,
      5 \<mapsto> GtkAlternativeTrigger 1 4 3, 6 \<mapsto> GtkAlternativeTrigger 1 2 3,
      7 \<mapsto> GtkAlternativeTrigger 1 1 6] 3
     \<lparr>event_type = GDK_KEY_PRESS, modifier_state = 0, event_keyval = 0x59\<rparr> = Inr (True, [3]) \<and>
   gtk_shortcut_trigger_trigger ascii_keyval_to_lower (Suc (Suc (Suc 0)))
     [1 \<mapsto> GtkNeverTrigger 3 0 0, 2 \<mapsto> GtkKeyvalTrigger 2 0x78 0,
      3 \<mapsto> GtkKeyvalTrigger 2 0x79 0, 4 \<mapsto> GtkAlternativeTrigger 1 1 2,
      5 \<mapsto> GtkAlternativeTrigger 1 4 3, 6 \<mapsto> GtkAlternativeTrigger 1 2 3,
      7 \<mapsto> GtkAlternativeTrigger 1 1 6] 5
     \<lparr>event_type = GDK_KEY_PRESS, modifier_state = 0, event_keyval = 0x59\<rparr>
     = Inr (True, [5, 4, 1, 2, 3]) \<and>
   gtk_shortcut_trigger_trigger ascii_keyval_to_lower (Suc (Suc (Suc 0)))
     [1 \<mapsto> GtkNeverTrigger 3 0 0, 2 \<mapsto> GtkKeyvalTrigger 2 0x78 0,
      3 \<mapsto> GtkKeyvalTrigger 2 0x79 0, 4 \<mapsto> GtkAlternativeTrigger 1 1 2,
      5 \<mapsto> GtkAlternativeTrigger 1 4 3, 6 \<mapsto> GtkAlternativeTrigger 1 2 3,
      7 \<mapsto> GtkAlternativeTrigger 1 1 6] 7
     \<lparr>event_type = GDK_KEY_PRESS, modifier_state = 0, event_keyval = 0x59\<rparr>
     = Inr (True, [7, 1, 6, 2, 3])"
proof -
  let ?h = "[(1::addr) \<mapsto> GtkNeverTrigger 3 0 0, 2 \<mapsto> GtkKeyvalTrigger 2 0x78 0,
     3 \<mapsto> GtkKeyvalTrigger 2 0x79 0, 4 \<mapsto> GtkAlternativeTrigger 1 1 2,
     5 \<mapsto> GtkAlternativeTrigger 1 4 3, 6 \<mapsto> GtkAlternativeTrigger 1 2 3,
     7 \<mapsto> GtkAlternativeTrigger 1 1 6]"
  let ?e = "\<lparr>event_type = GDK_KEY_PRESS, modifier_state = 0, event_keyval = 0x59\<rparr>"
  have valid: "(4::addr) \<noteq> NULL" "(5::addr) \<noteq> NULL" "(6::addr) \<noteq> NULL" "(7::addr) \<noteq> NULL"
    by (simp_all add: NULL_def)
  have objs: "?h 4 = Some (GtkAlternativeTrigger 1 1 2)" "?h 5 = Some (GtkAlternativeTrigger 1 4 3)"
    "?h 6 = Some (GtkAlternativeTrigger 1 2 3)" "?h 7 = Some (GtkAlternativeTrigger 1 1 6)"
    by simp_all
  have A: "gtk_shortcut_trigger_trigger ascii_keyval_to_lower (Suc 0) ?h 1 ?e = Inr (False, [1])"
    by (simp add: GTK_IS_SHORTCUT_TRIGGER_def NULL_def gtk_never_trigger_trigger_def)
  have B: "gtk_shortcut_trigger_trigger ascii_keyval_to_lower (Suc 0) ?h 2 ?e = Inr (False, [2])"
    by (simp add: GTK_IS_SHORTCUT_TRIGGER_def NULL_def gtk_keyval_trigger_trigger_def
        gdk_event_get_event_type_def gdk_key_event_get_keyval_def gdk_event_get_modifier_state_def
        normalize_keyval_def ascii_keyval_to_lower_def GDK_KEY_ISO_Left_Tab_def)
  have C: "gtk_shortcut_trigger_trigger ascii_keyval_to_lower (Suc 0) ?h 3 ?e = Inr (True, [3])"
    by (simp add: GTK_IS_SHORTCUT_TRIGGER_def NULL_def gtk_keyval_trigger_trigger_def
        gdk_event_get_event_type_def gdk_key_event_get_keyval_def gdk_event_get_modifier_state_def
        normalize_keyval_def ascii_keyval_to_lower_def GDK_KEY_ISO_Left_Tab_def)
  have both: "\<exists>calls1 calls2.
      gtk_shortcut_trigger_trigger ascii_keyval_to_lower (Suc (Suc (Suc 0))) ?h 5 ?e
        = Inr (False \<or> False \<or> True, calls1) \<and>
      gtk_shortcut_trigger_trigger ascii_keyval_to_lower (Suc (Suc (Suc 0))) ?h 7 ?e
        = Inr (False \<or> False \<or> True, calls2)"
    using valid objs A B C by (rule alternative_trigger_associative)
  have left: "gtk_shortcut_trigger_trigger ascii_keyval_to_lower (Suc (Suc (Suc 0))) ?h 5 ?e
      = Inr (True, [5, 4, 1, 2, 3])"
    by (simp add: GTK_IS_SHORTCUT_TRIGGER_def NULL_def gtk_keyval_trigger_trigger_def
        gtk_never_trigger_trigger_def
        gdk_event_get_event_type_def gdk_key_event_get_keyval_def gdk_event_get_modifier_state_def
        normalize_keyval_def ascii_keyval_to_lower_def GDK_KEY_ISO_Left_Tab_def)
  have right: "gtk_shortcut_trigger_trigger ascii_keyval_to_lower (Suc (Suc (Suc 0))) ?h 7 ?e
      = Inr (True, [7, 1, 6, 2, 3])"
    by (simp add: GTK_IS_SHORTCUT_TRIGGER_def NULL_def gtk_keyval_trigger_trigger_def
        gtk_never_trigger_trigger_def
        gdk_event_get_event_type_def gdk_key_event_get_keyval_def gdk_event_get_modifier_state_def
        normalize_keyval_def ascii_keyval_to_lower_def GDK_KEY_ISO_Left_Tab_def)
  show ?thesis using both valid objs(2) C left right by simp
qed

subsection \<open>Printing the never trigger\<close>

text \<open>
  Claim C7, as amended. Describing the never trigger appends the fixed placeholder
  \<open><never>\<close> to the string it prints into, so that \<open>gtk_shortcut_trigger_to_string\<close>
  returns \<open><never>\<close>. The claim names the placeholder \<open>never matches\<close>; the closed
  theorem after the instance below shows that the singleton is not printed so.
\<close>

theorem never_trigger_describe:
  assumes "self \<noteq> NULL" and "h self = Some (GtkNeverTrigger rc nv m)"
  shows "gtk_shortcut_trigger_print fmt (Suc n) h self (Some str) = Inr (Some (str @ ''<never>'')) \<and>
         gtk_shortcut_trigger_to_string fmt (Suc n) h self = Inr (Some ''<never>'')"
  using assms
  by (simp add: gtk_shortcut_trigger_to_string_def GTK_IS_SHORTCUT_TRIGGER_def
      gtk_never_trigger_print_def)

theorem never_trigger_describe_witness:
  "gtk_never_trigger_get \<noteq> NULL \<and>
   static_heap gtk_never_trigger_get = Some (GtkNeverTrigger 1 0 0) \<and>
   gtk_shortcut_trigger_print sample_accelerator_name (Suc 0) static_heap gtk_never_trigger_get
     (Some ''trigger: '') = Inr (Some ''trigger: <never>'') \<and>
   gtk_shortcut_trigger_to_string sample_accelerator_name (Suc 0) static_heap gtk_never_trigger_get
     = Inr (Some ''<never>'')"
proof -
  have valid: "gtk_never_trigger_get \<noteq> NULL"
    by (simp add: gtk_never_trigger_get_def never_def NULL_def)
  have obj: "static_heap gtk_never_trigger_get = Some (GtkNeverTrigger 1 0 0)"
    by (simp add: static_heap_def gtk_never_trigger_get_def)
  show ?thesis
    using valid obj never_trigger_describe [where self = gtk_never_trigger_get and h = static_heap
        and rc = 1 and nv = 0 and m = 0 and fmt = sample_accelerator_name and n = 0
        and str = "''trigger: ''"]
    by simp
qed

theorem never_trigger_describe_counterexample:
  "gtk_shortcut_trigger_to_string sample_accelerator_name (Suc 0) static_heap gtk_never_trigger_get
     = Inr (Some ''<never>'') \<and>
   gtk_shortcut_trigger_to_string sample_accelerator_name (Suc 0) static_heap gtk_never_trigger_get
     \<noteq> Inr (Some ''never matches'')"
  by (simp add: gtk_shortcut_trigger_to_string_def GTK_IS_SHORTCUT_TRIGGER_def
      gtk_never_trigger_print_def gtk_never_trigger_get_def never_def NULL_def static_heap_def)

subsection \<open>Accessors on a trigger of another class\<close>

text \<open>
  Claim C8. On a trigger that is not a keyval trigger, that is on a never trigger or on an
  alternative trigger, \<open>gtk_keyval_trigger_get_modifiers\<close> and
  \<open>gtk_keyval_trigger_get_keyval\<close> both return 0; neither faults and neither reads a
  field of the object.
\<close>

theorem keyval_accessors_type_mismatch:
  assumes "h t = Some obj" and "trigger_class obj \<noteq> GTK_KEYVAL_TRIGGER_CLASS"
  shows "gtk_keyval_trigger_get_modifiers h t = Inr 0 \<and> gtk_keyval_trigger_get_keyval h t = Inr 0"
  using assms
  by (cases obj)
    (simp_all add: gtk_keyval_trigger_get_modifiers_def gtk_keyval_trigger_get_keyval_def
      GTK_IS_SHORTCUT_TRIGGER_TYPE_def)

theorem keyval_accessors_type_mismatch_witness:
  "[(1::addr) \<mapsto> GtkNeverTrigger 1 0 5, 2 \<mapsto> GtkKeyvalTrigger 1 0x61 4,
     3 \<mapsto> GtkAlternativeTrigger 1 2 2] 3 = Some (GtkAlternativeTrigger 1 2 2) \<and>
   trigger_class (GtkAlternativeTrigger 1 2 2) \<noteq> GTK_KEYVAL_TRIGGER_CLASS \<and>
   gtk_keyval_trigger_get_modifiers
     [1 \<mapsto> GtkNeverTrigger 1 0 5, 2 \<mapsto> GtkKeyvalTrigger 1 0x61 4,
      3 \<mapsto> GtkAlternativeTrigger 1 2 2] 3 = Inr 0 \<and>
   gtk_keyval_trigger_get_keyval
     [1 \<mapsto> GtkNeverTrigger 1 0 5, 2 \<mapsto> GtkKeyvalTrigger 1 0x61 4,
      3 \<mapsto> GtkAlternativeTrigger 1 2 2] 3 = Inr 0 \<and>
   gtk_keyval_trigger_get_modifiers
     [1 \<mapsto> GtkNeverTrigger 1 0 5, 2 \<mapsto> GtkKeyvalTrigger 1 0x61 4,
      3 \<mapsto> GtkAlternativeTrigger 1 2 2] 1 = Inr 0"
proof -
  let ?h = "[(1::addr) \<mapsto> GtkNeverTrigger 1 0 5, 2 \<mapsto> GtkKeyvalTrigger 1 0x61 4,
      3 \<mapsto> GtkAlternativeTrigger 1 2 2]"
  have o3: "?h 3 = Some (GtkAlternativeTrigger 1 2 2)" by simp
  have c3: "trigger_class (GtkAlternativeTrigger 1 2 2) \<noteq> GTK_KEYVAL_TRIGGER_CLASS" by simp
  have o1: "?h 1 = Some (GtkNeverTrigger 1 0 5)" by simp
  have c1: "trigger_class (GtkNeverTrigger 1 0 5) \<noteq> GTK_KEYVAL_TRIGGER_CLASS" by simp
  show ?thesis
    using o3 c3 o1 c1
      keyval_accessors_type_mismatch [where h = "?h" and t = 3 and obj = "GtkAlternativeTrigger 1 2 2"]
      keyval_accessors_type_mismatch [where h = "?h" and t = 1 and obj = "GtkNeverTrigger 1 0 5"]
    by simp
qed

subsection \<open>Reference counts of the alternative trigger\<close>




text \<open>
  Claim C10. Called with a valid first trigger and an invalid second one,
  \<open>gtk_alternative_trigger_new\<close> returns the null pointer and the store as it was: no
  object is created and the first trigger keeps its count, so the reference handed over
  with it is released by nobody.
\<close>

theorem alternative_trigger_new_invalid_second:
  assumes "GTK_IS_SHORTCUT_TRIGGER first" and "\<not> GTK_IS_SHORTCUT_TRIGGER second"
  shows "gtk_alternative_trigger_new mem h first second = (NULL, h)"
  using assms by (simp add: gtk_alternative_trigger_new_def)

theorem alternative_trigger_new_invalid_second_witness:
  "GTK_IS_SHORTCUT_TRIGGER 2 \<and> \<not> GTK_IS_SHORTCUT_TRIGGER NULL \<and>
   gtk_alternative_trigger_new 3 [(1::addr) \<mapsto> GtkNeverTrigger 1 0 0, 2 \<mapsto> GtkKeyvalTrigger 1 0x61 4]
     2 NULL = (NULL, [1 \<mapsto> GtkNeverTrigger 1 0 0, 2 \<mapsto> GtkKeyvalTrigger 1 0x61 4])"
proof -
  have a: "GTK_IS_SHORTCUT_TRIGGER 2" and b: "\<not> GTK_IS_SHORTCUT_TRIGGER NULL"
    by (simp_all add: GTK_IS_SHORTCUT_TRIGGER_def NULL_def)
  show ?thesis
    using a b alternative_trigger_new_invalid_second [OF a b, where mem = 3
        and h = "[(1::addr) \<mapsto> GtkNeverTrigger 1 0 0, 2 \<mapsto> GtkKeyvalTrigger 1 0x61 4]"]
    by simp
qed

end
